theory Spec2Isabelle
  imports Main "HOL-Library.AList" "HOL-Library.Char_ord" "HOL-Library.List_Lexorder"
begin

section \<open>Go strings and the library functions the converter calls\<close>

text \<open>
  A Go \<open>string\<close> is a sequence of bytes; it is modelled as a \<open>string\<close> (a list of 8-bit
  characters), so \<open>len\<close> is \<open>length\<close>. The byte value of a character is \<open>of_char\<close>.
\<close>

definition byte_of :: "char \<Rightarrow> nat" where
  "byte_of c = of_char c"

definition is_upper :: "char \<Rightarrow> bool" where
  "is_upper c = (65 \<le> byte_of c \<and> byte_of c \<le> 90)"

definition is_lower :: "char \<Rightarrow> bool" where
  "is_lower c = (97 \<le> byte_of c \<and> byte_of c \<le> 122)"

definition is_digit :: "char \<Rightarrow> bool" where
  "is_digit c = (48 \<le> byte_of c \<and> byte_of c \<le> 57)"

definition to_lower :: "char \<Rightarrow> char" where
  "to_lower c = (if is_upper c then char_of (byte_of c + 32) else c)"

definition to_upper :: "char \<Rightarrow> char" where
  "to_upper c = (if is_lower c then char_of (byte_of c - 32) else c)"

text \<open>\<open>strings.ToLower\<close>, on ASCII text: bytes from \<open>0x80\<close> on are left as they are.\<close>

definition strings_ToLower :: "string \<Rightarrow> string" where
  "strings_ToLower s = map to_lower s"

text \<open>
  \<open>strings.Split(s, sep)\<close> for a one-byte separator: the pieces between the separators,
  empty pieces included, so the result has one element more than \<open>s\<close> has separators.
\<close>

fun strings_Split :: "string \<Rightarrow> char \<Rightarrow> string list" where
  "strings_Split [] sep = [[]]"
| "strings_Split (c # cs) sep =
     (if c = sep then [] # strings_Split cs sep
      else (c # hd (strings_Split cs sep)) # tl (strings_Split cs sep))"

text \<open>\<open>strings.Join(a, "")\<close>.\<close>

definition strings_Join_empty :: "string list \<Rightarrow> string" where
  "strings_Join_empty a = concat a"

text \<open>
  \<open>strings.NewReplacer("-", " ", "/", " ").Replace\<close>: both old strings are single bytes,
  so the replacer maps byte by byte.
\<close>

definition keyReplacer_Replace :: "string \<Rightarrow> string" where
  "keyReplacer_Replace s =
     map (\<lambda>c. if c = CHR ''-'' then CHR '' '' else if c = CHR ''/'' then CHR '' '' else c) s"

subsection \<open>Title casing\<close>

text \<open>
  \<open>cases.Title(language.Und).String\<close> of \<open>golang.org/x/text\<close>, on ASCII text. The caser
  walks the runes with one flag, \<open>isMidWord\<close>. A cased rune (a letter) is mapped to title
  case when the flag is off, which turns the flag on, and to lower case when it is on.
  Any other rune is copied, and turns the flag off when it is a word break. The runes of
  the word-break classes MidLetter, MidNumLet and Single_Quote (\<open>:\<close>, \<open>.\<close> and \<open>'\<close>) do
  not break a word unless two of them follow each other; digits and the underscore
  neither break a word nor start one. Bytes from \<open>0x80\<close> on are outside this model of the
  caser: it copies them, as it copies a digit.
\<close>

definition is_cased :: "char \<Rightarrow> bool" where
  "is_cased c = (is_upper c \<or> is_lower c)"

definition is_mid :: "char \<Rightarrow> bool" where
  "is_mid c = (c = CHR 0x27 \<or> c = CHR ''.'' \<or> c = CHR '':'')"

definition is_break :: "char \<Rightarrow> bool" where
  "is_break c = (byte_of c < 128 \<and> \<not> is_cased c \<and> \<not> is_mid c \<and> \<not> is_digit c \<and> c \<noteq> CHR ''_'')"

fun title_from :: "bool \<Rightarrow> string \<Rightarrow> string" where
  "title_from isMidWord [] = []"
| "title_from isMidWord (c # cs) =
     (let out = (if is_cased c then (if isMidWord then to_lower c else to_upper c) else c);
          m1 = (if is_cased c then True else if is_break c then False else isMidWord);
          m2 = (case cs of [] \<Rightarrow> m1 | d # _ \<Rightarrow> if is_mid c \<and> is_mid d then False else m1)
      in out # title_from m2 cs)"

definition cases_Title :: "string \<Rightarrow> string" where
  "cases_Title s = title_from False s"

subsection \<open>Trimming trailing white space\<close>

text \<open>
  \<open>strings.TrimRightFunc(l, unicode.IsSpace)\<close> decodes the last rune of the string and
  removes it while it is white space. \<open>unicode.IsSpace\<close> holds of the six ASCII characters
  tab, line feed, vertical tab, form feed, carriage return and space, and of U+0085,
  U+00A0, U+1680, U+2000 to U+200A, U+2028, U+2029, U+202F, U+205F and U+3000. The last
  rune of a string is one of these exactly when the string ends with its UTF-8 encoding,
  so the model removes these byte sequences from the end.
\<close>

definition isSpace_utf8 :: "string list" where
  "isSpace_utf8 =
     [[CHR 0x09], [CHR 0x0A], [CHR 0x0B], [CHR 0x0C], [CHR 0x0D], [CHR 0x20],
      [CHR 0xC2, CHR 0x85], [CHR 0xC2, CHR 0xA0], [CHR 0xE1, CHR 0x9A, CHR 0x80],
      [CHR 0xE2, CHR 0x80, CHR 0x80], [CHR 0xE2, CHR 0x80, CHR 0x81],
      [CHR 0xE2, CHR 0x80, CHR 0x82], [CHR 0xE2, CHR 0x80, CHR 0x83],
      [CHR 0xE2, CHR 0x80, CHR 0x84], [CHR 0xE2, CHR 0x80, CHR 0x85],
      [CHR 0xE2, CHR 0x80, CHR 0x86], [CHR 0xE2, CHR 0x80, CHR 0x87],
      [CHR 0xE2, CHR 0x80, CHR 0x88], [CHR 0xE2, CHR 0x80, CHR 0x89],
      [CHR 0xE2, CHR 0x80, CHR 0x8A], [CHR 0xE2, CHR 0x80, CHR 0xA8],
      [CHR 0xE2, CHR 0x80, CHR 0xA9], [CHR 0xE2, CHR 0x80, CHR 0xAF],
      [CHR 0xE2, CHR 0x81, CHR 0x9F], [CHR 0xE3, CHR 0x80, CHR 0x80]]"

definition ends_with :: "string \<Rightarrow> string \<Rightarrow> bool" where
  "ends_with s e = (length e \<le> length s \<and> drop (length s - length e) s = e)"

definition last_space_width :: "string \<Rightarrow> nat" where
  "last_space_width s = (case find (ends_with s) isSpace_utf8 of None \<Rightarrow> 0 | Some e \<Rightarrow> length e)"

function TrimRight_IsSpace :: "string \<Rightarrow> string" where
  "TrimRight_IsSpace s =
     (if last_space_width s = 0 \<or> length s < last_space_width s then s
      else TrimRight_IsSpace (take (length s - last_space_width s) s))"
  by pat_completeness auto
termination
  by (relation "measure length") auto

declare TrimRight_IsSpace.simps [simp del]

subsection \<open>Regular expressions\<close>

text \<open>
  The two patterns of the converter are sequences of the items below. \<open>regexp\<close> matches as
  a backtracking search would (leftmost start, then the first alternative that succeeds):
  a greedy repetition tries one more character before it tries the rest of the pattern,
  a lazy one the other way round. Character classes are those of Go's syntax: \<open>.\<close> is any
  character but line feed, \<open>\s\<close> is one of tab, line feed, form feed, carriage return and
  space. None of them contains a byte from \<open>0x80\<close> on except \<open>.\<close>, which takes any of them,
  so matching byte by byte finds the same groups as matching rune by rune.
\<close>

datatype cclass = AnyNotNL | Digit | PerlSpace | Lit char

fun in_class :: "cclass \<Rightarrow> char \<Rightarrow> bool" where
  "in_class AnyNotNL c = (c \<noteq> CHR 0x0A)"
| "in_class Digit c = is_digit c"
| "in_class PerlSpace c =
     (c = CHR 0x09 \<or> c = CHR 0x0A \<or> c = CHR 0x0C \<or> c = CHR 0x0D \<or> c = CHR 0x20)"
| "in_class (Lit d) c = (c = d)"

datatype item =
    One cclass
  | Rep nat cclass
  | PlusGreedy cclass
  | PlusLazy cclass
  | StarGreedy cclass
  | StarLazy cclass
  | BeginText
  | EndText
  | GroupOpen nat string
  | GroupClose nat

type_synonym caps = "nat \<Rightarrow> nat"

text \<open>
  \<open>rx p r i cap\<close> matches the pattern \<open>p\<close> against the rest \<open>r\<close> of the text, which starts at
  offset \<open>i\<close>; \<open>cap\<close> holds the offsets of the groups, group \<open>n\<close> in the slots \<open>2n\<close> and
  \<open>2n + 1\<close>. \<open>x+\<close> is one \<open>x\<close> and then \<open>x*\<close>.
\<close>

fun rx :: "item list \<Rightarrow> string \<Rightarrow> nat \<Rightarrow> caps \<Rightarrow> caps option" where
  "rx [] r i cap = Some (cap(1 := i))"
| "rx (BeginText # p) r i cap = (if i = 0 then rx p r i cap else None)"
| "rx (EndText # p) r i cap = (if r = [] then rx p r i cap else None)"
| "rx (GroupOpen n nm # p) r i cap = rx p r i (cap(2 * n := i))"
| "rx (GroupClose n # p) r i cap = rx p r i (cap(2 * n + 1 := i))"
| "rx (One k # p) [] i cap = None"
| "rx (One k # p) (c # r) i cap = (if in_class k c then rx p r (i + 1) cap else None)"
| "rx (Rep 0 k # p) r i cap = rx p r i cap"
| "rx (Rep (Suc n) k # p) [] i cap = None"
| "rx (Rep (Suc n) k # p) (c # r) i cap =
     (if in_class k c then rx (Rep n k # p) r (i + 1) cap else None)"
| "rx (PlusGreedy k # p) [] i cap = None"
| "rx (PlusGreedy k # p) (c # r) i cap =
     (if in_class k c then rx (StarGreedy k # p) r (i + 1) cap else None)"
| "rx (PlusLazy k # p) [] i cap = None"
| "rx (PlusLazy k # p) (c # r) i cap =
     (if in_class k c then rx (StarLazy k # p) r (i + 1) cap else None)"
| "rx (StarGreedy k # p) [] i cap = rx p [] i cap"
| "rx (StarGreedy k # p) (c # r) i cap =
     (if in_class k c
      then (case rx (StarGreedy k # p) r (i + 1) cap of
              Some m \<Rightarrow> Some m
            | None \<Rightarrow> rx p (c # r) i cap)
      else rx p (c # r) i cap)"
| "rx (StarLazy k # p) [] i cap = rx p [] i cap"
| "rx (StarLazy k # p) (c # r) i cap =
     (case rx p (c # r) i cap of
        Some m \<Rightarrow> Some m
      | None \<Rightarrow> if in_class k c then rx (StarLazy k # p) r (i + 1) cap else None)"

text \<open>The search for the leftmost start: offset \<open>i\<close>, then \<open>i + 1\<close>, up to the end of the text.\<close>

fun rx_search :: "item list \<Rightarrow> string \<Rightarrow> nat \<Rightarrow> caps option" where
  "rx_search p [] i = rx p [] i ((\<lambda>_. 0)(0 := i))"
| "rx_search p (c # r) i =
     (case rx p (c # r) i ((\<lambda>_. 0)(0 := i)) of
        Some m \<Rightarrow> Some m
      | None \<Rightarrow> rx_search p r (i + 1))"

definition NumSubexp :: "item list \<Rightarrow> nat" where
  "NumSubexp p = length (filter (\<lambda>a. case a of GroupOpen n nm \<Rightarrow> True | _ \<Rightarrow> False) p)"

text \<open>\<open>SubexpIndex\<close>: the index of the first group with the name, \<open>-1\<close> when there is none.\<close>

fun SubexpIndex :: "item list \<Rightarrow> string \<Rightarrow> int" where
  "SubexpIndex [] name = - 1"
| "SubexpIndex (GroupOpen n nm # p) name = (if nm = name then int n else SubexpIndex p name)"
| "SubexpIndex (a # p) name = SubexpIndex p name"

text \<open>
  \<open>FindStringSubmatch\<close>: the text of the leftmost match and of its groups, the empty list
  (Go's \<open>nil\<close>) when nothing matches.
\<close>

definition FindStringSubmatch :: "item list \<Rightarrow> string \<Rightarrow> string list" where
  "FindStringSubmatch p s =
     (case rx_search p s 0 of
        None \<Rightarrow> []
      | Some m \<Rightarrow> map (\<lambda>n. take (m (2 * n + 1) - m (2 * n)) (drop (m (2 * n)) s)) [0 ..< NumSubexp p + 1])"

section \<open>The converter\<close>

text \<open>\<open>errors.New\<close> makes an error of a message.\<close>

datatype error = errorString string

definition errors_New :: "string \<Rightarrow> error" where
  "errors_New msg = errorString msg"

text \<open>\<open>type Format int\<close>, with the one constant \<open>JsonFormat = iota\<close>.\<close>

type_synonym Format = int

definition JsonFormat :: Format where
  "JsonFormat = 0"

definition Format_String :: "Format \<Rightarrow> string" where
  "Format_String f = (if f = JsonFormat then ''json'' else [])"

text \<open>
  The converter. \<open>rawHeader\<close> is an open file in the source; the model holds the bytes that
  reading it to the end yields.
\<close>

record HttpHeaderConverter =
  rawHeader :: string
  outputFormat :: Format
  numWorker :: int

definition SetRawHeader :: "HttpHeaderConverter \<Rightarrow> string \<Rightarrow> HttpHeaderConverter" where
  "SetRawHeader conv h = conv\<lparr>rawHeader := h\<rparr>"

definition SetOutputFormat :: "HttpHeaderConverter \<Rightarrow> Format \<Rightarrow> HttpHeaderConverter" where
  "SetOutputFormat conv f = conv\<lparr>outputFormat := f\<rparr>"

definition SetNumWorker :: "HttpHeaderConverter \<Rightarrow> int \<Rightarrow> HttpHeaderConverter" where
  "SetNumWorker conv n = conv\<lparr>numWorker := n\<rparr>"

text \<open>
  \<open>NewHttpHeaderConverter\<close> reads \<open>os.Stdin\<close> and \<open>runtime.NumCPU()\<close>; the model takes the
  bytes of standard input and the number of CPUs as arguments.
\<close>

definition NewHttpHeaderConverter :: "string \<Rightarrow> int \<Rightarrow> HttpHeaderConverter" where
  "NewHttpHeaderConverter stdin numCPU =
     SetNumWorker
       (SetOutputFormat
          (SetRawHeader \<lparr>rawHeader = [], outputFormat = 0, numWorker = 0\<rparr> stdin)
          JsonFormat)
       numCPU"

subsection \<open>The key normalizer\<close>

definition createJsonKey :: "HttpHeaderConverter \<Rightarrow> string \<Rightarrow> string \<times> error option" where
  "createJsonKey conv key =
     (let t = keyReplacer_Replace key;
          t = cases_Title t;
          tl = strings_Split t (CHR '' '');
          tl = tl[0 := strings_ToLower (tl ! 0)];
          t = strings_Join_empty tl
      in (t, None))"

subsection \<open>Classifying one line\<close>

text \<open>
  A classifier takes the line and the stream it sends to. The model returns \<open>Inr kv\<close> when
  the source sends \<open>kv\<close> on the stream and returns \<open>nil\<close>, and \<open>Inl e\<close> when it returns the
  error \<open>e\<close> and sends nothing. A run that panics has the value \<open>None\<close>.
\<close>

text \<open>\<^verbatim>\<open>^(?P<key>.+?):\s+(?P<value>.+)$\<close>\<close>

definition pairPattern :: "item list" where
  "pairPattern =
     [BeginText, GroupOpen 1 ''key'', PlusLazy AnyNotNL, GroupClose 1, One (Lit (CHR '':'')),
      PlusGreedy PerlSpace, GroupOpen 2 ''value'', PlusGreedy AnyNotNL, GroupClose 2, EndText]"

definition pairKeyIndex :: int where
  "pairKeyIndex = SubexpIndex pairPattern ''key''"

definition pairValueIndex :: int where
  "pairValueIndex = SubexpIndex pairPattern ''value''"

text \<open>
  \<open>line[0:1]\<close> panics on the empty line. The indices into \<open>g\<close> are 1 and 2, in range once
  \<open>len(g)\<close> is 3. A format other than \<open>JsonFormat\<close> leaves the key as it is.
\<close>

definition parsePair :: "HttpHeaderConverter \<Rightarrow> string \<Rightarrow> (error + string list) option" where
  "parsePair conv line =
     (if length line < 1 then None
      else if take 1 line = '' '' then Some (Inl (errors_New ''not pair string''))
      else
        let g = FindStringSubmatch pairPattern line in
        if length g \<noteq> 3 then Some (Inl (errors_New ''cannot parse''))
        else
          let k = g ! nat pairKeyIndex;
              v = g ! nat pairValueIndex
          in if outputFormat conv = JsonFormat
             then (case createJsonKey conv k of
                     (k, Some e) \<Rightarrow> Some (Inl (errors_New ''cannot convert JSON key''))
                   | (k, None) \<Rightarrow> Some (Inr [k, v]))
             else Some (Inr [k, v]))"

text \<open>\<^verbatim>\<open>(?P<code>[0-9]{3})\s(?P<message>.+)$\<close>\<close>

definition statusPattern :: "item list" where
  "statusPattern =
     [GroupOpen 1 ''code'', Rep 3 Digit, GroupClose 1, One PerlSpace,
      GroupOpen 2 ''message'', PlusGreedy AnyNotNL, GroupClose 2, EndText]"

definition statusCodeIndex :: int where
  "statusCodeIndex = SubexpIndex statusPattern ''code''"

definition statusMessageIndex :: int where
  "statusMessageIndex = SubexpIndex statusPattern ''message''"

definition parseStatus :: "HttpHeaderConverter \<Rightarrow> string \<Rightarrow> error + string list" where
  "parseStatus conv line =
     (let g = FindStringSubmatch statusPattern line in
      if length g \<noteq> 3 then Inl (errors_New ''cannot parse'')
      else
        let v = g ! nat statusCodeIndex;
            k = (if outputFormat conv = JsonFormat then ''code'' else ''Code'')
        in Inr [k, v])"

subsection \<open>The line classifier\<close>

text \<open>
  \<open>reader.ReadString(delim)\<close> on a reader that holds the bytes \<open>rd\<close>: the bytes up to and
  with the first \<open>delim\<close> and no error, or, when there is no \<open>delim\<close>, all the bytes and the
  error \<open>io.EOF\<close>. The second component is what is left in the reader.
\<close>

definition io_EOF :: error where
  "io_EOF = errors_New ''EOF''"

definition ReadString :: "string \<Rightarrow> char \<Rightarrow> string \<times> string \<times> error option" where
  "ReadString rd delim =
     (if delim \<in> set rd
      then (takeWhile (\<lambda>c. c \<noteq> delim) rd @ [delim], tl (dropWhile (\<lambda>c. c \<noteq> delim) rd), None)
      else (rd, [], Some io_EOF))"

text \<open>
  The two channels are modelled by the sequences of the messages sent on them. A send
  puts its message in front of what the rest of the loop sends.
\<close>

type_synonym streams = "string list list \<times> string list list"

definition send_converted :: "string list \<Rightarrow> streams option \<Rightarrow> streams option" where
  "send_converted kv rest = map_option (\<lambda>(cs, ns). (kv # cs, ns)) rest"

definition send_notConverted :: "string list \<Rightarrow> streams option \<Rightarrow> streams option" where
  "send_notConverted m rest = map_option (\<lambda>(cs, ns). (cs, m # ns)) rest"

text \<open>
  The body of the goroutine of \<open>createSenders\<close>: the loop, with its flag \<open>f\<close>. The status
  pattern is tried only while \<open>f\<close> holds, and \<open>f\<close> is cleared at the first line that gets
  that far.
\<close>

function createSenders_loop ::
  "HttpHeaderConverter \<Rightarrow> bool \<Rightarrow> string \<Rightarrow> streams option" where
  "createSenders_loop conv f reader =
     (case ReadString reader (CHR 0x0A) of (l, reader', e) \<Rightarrow>
        if e \<noteq> None then Some ([], [])
        else
          let l = TrimRight_IsSpace l in
          if length l < 4 then createSenders_loop conv f reader'
          else
            case (if f then Some (parseStatus conv l) else None) of
              Some (Inr kv) \<Rightarrow> send_converted kv (createSenders_loop conv False reader')
            | _ \<Rightarrow>
                (case parsePair conv l of
                   None \<Rightarrow> None
                 | Some (Inr kv) \<Rightarrow> send_converted kv (createSenders_loop conv False reader')
                 | Some (Inl _) \<Rightarrow> send_notConverted [l] (createSenders_loop conv False reader')))"
  by pat_completeness auto
termination
proof -
  have shorter: "length (tl (dropWhile (\<lambda>c. c \<noteq> d) rd)) < length rd"
    if "d \<in> set rd" for d :: char and rd
  proof -
    from that have "dropWhile (\<lambda>c. c \<noteq> d) rd \<noteq> []" by auto
    hence "length (tl (dropWhile (\<lambda>c. c \<noteq> d) rd)) < length (dropWhile (\<lambda>c. c \<noteq> d) rd)"
      by (cases "dropWhile (\<lambda>c. c \<noteq> d) rd") auto
    also have "\<dots> \<le> length rd" by (rule length_dropWhile_le)
    finally show ?thesis .
  qed
  show ?thesis
    by (relation "measure (\<lambda>(conv, f, reader). length reader)")
       (auto simp del: length_tl simp: ReadString_def shorter split: if_splits)
qed

declare createSenders_loop.simps [simp del]

text \<open>
  \<open>createSenders\<close>: \<open>make\<close> panics on a negative capacity; otherwise the capacity of the
  channels only bounds how far the sender runs ahead of the receivers.
\<close>

definition createSenders ::
  "HttpHeaderConverter \<Rightarrow> string \<Rightarrow> (string list list \<times> string list list \<times> error option) option" where
  "createSenders conv reader =
     (if numWorker conv < 0 then None
      else case createSenders_loop conv True reader of
             None \<Rightarrow> None
           | Some (convertedStream, notConvertedStream) \<Rightarrow>
               Some (convertedStream, notConvertedStream, None))"

subsection \<open>The aggregator\<close>

text \<open>
  The values of \<open>map[string]interface{}\<close> that the converter stores are strings and, under
  the key of the raw lines, a slice of strings. The map is modelled by an association list with
  one entry for each key; \<open>m[k] = v\<close> is \<open>AList.update k v m\<close>.
\<close>

datatype jvalue = JStr string | JArr "string list"

type_synonym gomap = "(string \<times> jvalue) list"

text \<open>
  \<open>convert\<close> starts the sender and two receivers, one for each channel, and waits for both.
  Each receiver alone writes its own variable, so the result is the one of running the
  first receiver over its whole stream and then the second. The elapsed time, which
  \<open>Output\<close> only logs, is not part of the model.
\<close>

definition receive_converted :: "gomap \<Rightarrow> string list \<Rightarrow> gomap" where
  "receive_converted converted s = AList.update (s ! 0) (JStr (s ! 1)) converted"

definition receive_notConverted :: "string list \<Rightarrow> string list \<Rightarrow> string list" where
  "receive_notConverted notConverted s = notConverted @ [s ! 0]"

definition convert :: "HttpHeaderConverter \<Rightarrow> (gomap \<times> string list \<times> error option) option" where
  "convert conv =
     (case createSenders conv (rawHeader conv) of
        None \<Rightarrow> None
      | Some (convertedStream, notConvertedStream, _) \<Rightarrow>
          let converted = foldl receive_converted [] convertedStream;
              notConverted = foldl receive_notConverted [] notConvertedStream
          in Some (converted, notConverted, None))"

subsection \<open>Serialization\<close>

text \<open>
  \<open>json.Marshal\<close> of such a map: an object with the keys in sorted order, strings quoted
  and escaped. Of the ASCII characters it escapes the quote, the backslash, the control
  characters and \<open><\<close>, \<open>>\<close> and \<open>&\<close>; a control character other than line feed, carriage
  return and tab is written with four hexadecimal digits. Bytes from \<open>0x80\<close> on are copied,
  as \<open>json.Marshal\<close> does with valid UTF-8 other than U+2028 and U+2029. It returns no
  error on these values.
\<close>

definition hex_digit :: "nat \<Rightarrow> char" where
  "hex_digit n = ''0123456789abcdef'' ! (n mod 16)"

definition json_escape :: "char \<Rightarrow> string" where
  "json_escape c =
     (if c = CHR 0x22 then [CHR 0x5C, CHR 0x22]
      else if c = CHR 0x5C then [CHR 0x5C, CHR 0x5C]
      else if c = CHR 0x0A then [CHR 0x5C, CHR ''n'']
      else if c = CHR 0x0D then [CHR 0x5C, CHR ''r'']
      else if c = CHR 0x09 then [CHR 0x5C, CHR ''t'']
      else if byte_of c < 32 \<or> c = CHR ''<'' \<or> c = CHR ''>'' \<or> c = CHR ''&''
      then [CHR 0x5C, CHR ''u'', CHR ''0'', CHR ''0'', hex_digit (byte_of c div 16), hex_digit (byte_of c)]
      else [c])"

definition json_string :: "string \<Rightarrow> string" where
  "json_string s = [CHR 0x22] @ concat (map json_escape s) @ [CHR 0x22]"

fun join_comma :: "string list \<Rightarrow> string" where
  "join_comma [] = []"
| "join_comma [x] = x"
| "join_comma (x # y # ys) = x @ '','' @ join_comma (y # ys)"

fun json_value :: "jvalue \<Rightarrow> string" where
  "json_value (JStr s) = json_string s"
| "json_value (JArr xs) = ''['' @ join_comma (map json_string xs) @ '']''"

definition json_Marshal :: "gomap \<Rightarrow> string \<times> error option" where
  "json_Marshal m =
     (''{'' @ join_comma (map (\<lambda>(k, v). json_string k @ '':'' @ json_value v) (sort_key fst m)) @ ''}'',
      None)"

subsection \<open>Output\<close>

text \<open>The mapping that \<open>Output\<close> serializes: the converted pairs, and the raw lines if any.\<close>

definition Output_mapping :: "HttpHeaderConverter \<Rightarrow> gomap \<Rightarrow> string list \<Rightarrow> gomap" where
  "Output_mapping conv converted notConverted =
     (if length notConverted > 0
      then (let k = (if outputFormat conv = JsonFormat then ''raw'' else ''Raw'')
            in AList.update k (JArr notConverted) converted)
      else converted)"

text \<open>
  \<open>Output\<close>, with the serializer as an argument, so that the source's treatment of a failed
  serialization can be stated. \<open>t, _ := json.Marshal(converted)\<close> keeps the bytes and drops
  the error.
\<close>

definition Output_with ::
  "(gomap \<Rightarrow> string \<times> error option) \<Rightarrow> HttpHeaderConverter \<Rightarrow> (string \<times> error option) option" where
  "Output_with marshal conv =
     (case convert conv of
        None \<Rightarrow> None
      | Some (converted, notConverted, e) \<Rightarrow>
          if e \<noteq> None then Some ([], e)
          else
            let converted = Output_mapping conv converted notConverted;
                (t, _) = marshal converted;
                resp = t
            in Some (resp, None))"

definition Output :: "HttpHeaderConverter \<Rightarrow> (string \<times> error option) option" where
  "Output conv = Output_with json_Marshal conv"

section \<open>Notions used to state the properties\<close>

text \<open>
  The lines of the input that end with a line feed, each with its line feed: the strings
  that \<open>ReadString\<close> returns without an error.
\<close>

fun complete_lines :: "string \<Rightarrow> string list" where
  "complete_lines [] = []"
| "complete_lines (c # cs) =
     (if c = CHR 0x0A then [c] # complete_lines cs
      else (case complete_lines cs of [] \<Rightarrow> [] | l # ls \<Rightarrow> (c # l) # ls))"

text \<open>The retained lines: the complete lines, trimmed, that are at least four bytes long.\<close>

definition retained :: "string \<Rightarrow> string list" where
  "retained rd = filter (\<lambda>l. 4 \<le> length l) (map TrimRight_IsSpace (complete_lines rd))"



text \<open>The record that pair classification sends for a line, if it sends one.\<close>

definition pair_of :: "HttpHeaderConverter \<Rightarrow> string \<Rightarrow> string list option" where
  "pair_of conv l = (case parsePair conv l of Some (Inr kv) \<Rightarrow> Some kv | _ \<Rightarrow> None)"

text \<open>
  What lines send when only pair classification is tried on them: the records of those
  that pass, and those that fail.
\<close>

definition pair_records :: "HttpHeaderConverter \<Rightarrow> string list \<Rightarrow> string list list" where
  "pair_records conv ls = List.map_filter (pair_of conv) ls"

definition pair_failures :: "HttpHeaderConverter \<Rightarrow> string list \<Rightarrow> string list" where
  "pair_failures conv ls = filter (\<lambda>l. pair_of conv l = None) ls"

text \<open>The loop of \<open>createSenders\<close> over lines that are already read, trimmed and retained.\<close>

fun classify :: "HttpHeaderConverter \<Rightarrow> bool \<Rightarrow> string list \<Rightarrow> streams option" where
  "classify conv f [] = Some ([], [])"
| "classify conv f (l # ls) =
     (case (if f then Some (parseStatus conv l) else None) of
        Some (Inr kv) \<Rightarrow> send_converted kv (classify conv False ls)
      | _ \<Rightarrow>
          (case parsePair conv l of
             None \<Rightarrow> None
           | Some (Inr kv) \<Rightarrow> send_converted kv (classify conv False ls)
           | Some (Inl _) \<Rightarrow> send_notConverted [l] (classify conv False ls)))"


text \<open>
  What \<open>createSenders\<close> sends for the retained lines \<open>ls\<close>: the status pattern is tried on
  the first of them only. \<open>status_records\<close> is the sequence of the classified records,
  \<open>failed_lines\<close> the lines that failed both classifications (the first line) or pair
  classification (the others), each in the order of the input.
\<close>

definition status_records :: "HttpHeaderConverter \<Rightarrow> string list \<Rightarrow> string list list" where
  "status_records conv ls =
     (case ls of
        [] \<Rightarrow> []
      | l # ls' \<Rightarrow>
          (case parseStatus conv l of
             Inr kv \<Rightarrow> kv # pair_records conv ls'
           | Inl _ \<Rightarrow> pair_records conv ls))"

definition failed_lines :: "HttpHeaderConverter \<Rightarrow> string list \<Rightarrow> string list" where
  "failed_lines conv ls =
     (case ls of
        [] \<Rightarrow> []
      | l # ls' \<Rightarrow>
          (case parseStatus conv l of
             Inr kv \<Rightarrow> pair_failures conv ls'
           | Inl _ \<Rightarrow> pair_failures conv ls))"





section \<open>The loop of the classifier over the retained lines\<close>

lemma complete_lines_none: "CHR 0x0A \<notin> set rd \<Longrightarrow> complete_lines rd = []"
  by (induction rd) auto

lemma complete_lines_line:
  "CHR 0x0A \<notin> set x \<Longrightarrow> complete_lines (x @ CHR 0x0A # rest) = (x @ [CHR 0x0A]) # complete_lines rest"
  by (induction x) auto

lemma retained_none: "CHR 0x0A \<notin> set rd \<Longrightarrow> retained rd = []"
  by (simp add: retained_def complete_lines_none)

lemma retained_line:
  "CHR 0x0A \<notin> set x \<Longrightarrow>
   retained (x @ CHR 0x0A # rest) =
     (if length (TrimRight_IsSpace (x @ [CHR 0x0A])) < 4 then retained rest
      else TrimRight_IsSpace (x @ [CHR 0x0A]) # retained rest)"
  by (simp add: retained_def complete_lines_line)

lemma ReadString_none: "CHR 0x0A \<notin> set rd \<Longrightarrow> ReadString rd (CHR 0x0A) = (rd, [], Some io_EOF)"
  by (simp add: ReadString_def)

lemma ReadString_line:
  assumes "CHR 0x0A \<notin> set x"
  shows "ReadString (x @ CHR 0x0A # rest) (CHR 0x0A) = (x @ [CHR 0x0A], rest, None)"
proof -
  have "takeWhile (\<lambda>c. c \<noteq> CHR 0x0A) (x @ CHR 0x0A # rest) = x"
    using assms by (induction x) auto
  moreover have "dropWhile (\<lambda>c. c \<noteq> CHR 0x0A) (x @ CHR 0x0A # rest) = CHR 0x0A # rest"
    using assms by (induction x) auto
  ultimately show ?thesis by (simp add: ReadString_def)
qed

lemma loop_eof: "CHR 0x0A \<notin> set rd \<Longrightarrow> createSenders_loop conv f rd = Some ([], [])"
  by (subst createSenders_loop.simps) (simp add: ReadString_none)

lemma loop_classify: "createSenders_loop conv f rd = classify conv f (retained rd)"
proof (induction "length rd" arbitrary: f rd rule: less_induct)
  case less
  show ?case
  proof (cases "CHR 0x0A \<in> set rd")
    case False
    then show ?thesis by (simp add: loop_eof retained_none)
  next
    case True
    then obtain x rest where rd: "rd = x @ CHR 0x0A # rest" and x: "CHR 0x0A \<notin> set x"
      by (auto dest: split_list_first)
    have ih: "createSenders_loop conv g rest = classify conv g (retained rest)" for g
      using less [of rest g] rd by simp
    show ?thesis
      unfolding rd
      by (subst createSenders_loop.simps)
         (simp add: ReadString_line [OF x] retained_line [OF x] Let_def ih split: sum.split option.split)
  qed
qed

lemma parsePair_format:
  "outputFormat c = outputFormat c' \<Longrightarrow> parsePair c l = parsePair c' l"
  by (simp add: parsePair_def createJsonKey_def Let_def)

lemma parseStatus_format:
  "outputFormat c = outputFormat c' \<Longrightarrow> parseStatus c l = parseStatus c' l"
  by (simp add: parseStatus_def)

lemma classify_format:
  "outputFormat c = outputFormat c' \<Longrightarrow> classify c f ls = classify c' f ls"
  by (induction ls arbitrary: f)
     (simp_all add: parsePair_format [of c c'] parseStatus_format [of c c']
        split: sum.split option.split)

lemma Output_with_depends:
  assumes "outputFormat c = outputFormat c'" "rawHeader c = rawHeader c'"
    and "(numWorker c < 0) = (numWorker c' < 0)"
  shows "Output_with m c = Output_with m c'"
  using assms classify_format [OF assms(1)]
  by (simp add: Output_with_def convert_def createSenders_def loop_classify Output_mapping_def
        split: option.split prod.split)

lemma parsePair_None_iff: "parsePair conv l = None \<longleftrightarrow> l = []"
  by (auto simp: parsePair_def createJsonKey_def Let_def)

lemma classify_pairs:
  "\<forall>l\<in>set ls. l \<noteq> [] \<Longrightarrow>
   classify conv False ls = Some (pair_records conv ls, map (\<lambda>l. [l]) (pair_failures conv ls))"
proof (induction ls)
  case Nil
  show ?case by (simp add: pair_records_def pair_failures_def List.map_filter_simps)
next
  case (Cons l ls)
  hence ne: "parsePair conv l \<noteq> None" by (simp add: parsePair_None_iff)
  from Cons show ?case using ne
    by (auto simp: pair_records_def pair_failures_def List.map_filter_simps pair_of_def
        send_converted_def send_notConverted_def split: option.splits sum.splits)
qed

lemma classify_first:
  "\<forall>l\<in>set ls. l \<noteq> [] \<Longrightarrow>
   classify conv True ls = Some (status_records conv ls, map (\<lambda>l. [l]) (failed_lines conv ls))"
proof (cases ls)
  case Nil
  then show ?thesis by (simp add: status_records_def failed_lines_def)
next
  case (Cons l ls')
  assume a: "\<forall>l\<in>set ls. l \<noteq> []"
  hence ne: "parsePair conv l \<noteq> None" and r: "\<forall>l\<in>set ls'. l \<noteq> []"
    using Cons by (simp_all add: parsePair_None_iff)
  show ?thesis unfolding Cons using ne classify_pairs [OF r, of conv]
    by (auto simp: status_records_def failed_lines_def pair_records_def pair_failures_def
        List.map_filter_simps pair_of_def
        send_converted_def send_notConverted_def split: option.splits sum.splits)
qed

lemma retained_nonempty: "l \<in> set (retained rd) \<Longrightarrow> l \<noteq> []"
  by (auto simp: retained_def)

lemma retained_length: "l \<in> set (retained rd) \<Longrightarrow> 4 \<le> length l"
  by (auto simp: retained_def)

lemma createSenders_eq:
  "createSenders conv rd =
     (if numWorker conv < 0 then None
      else Some (status_records conv (retained rd), map (\<lambda>l. [l]) (failed_lines conv (retained rd)), None))"
  using classify_first [of "retained rd" conv] retained_nonempty [of _ rd]
  by (simp add: createSenders_def loop_classify)

lemma foldl_receive_notConverted:
  "foldl receive_notConverted acc (map (\<lambda>l. [l]) ls) = acc @ ls"
  by (induction ls arbitrary: acc) (simp_all add: receive_notConverted_def)

lemma convert_eq:
  "convert conv =
     (if numWorker conv < 0 then None
      else Some (foldl receive_converted [] (status_records conv (retained (rawHeader conv))),
                 failed_lines conv (retained (rawHeader conv)), None))"
  by (simp add: convert_def createSenders_eq foldl_receive_notConverted)

lemma Output_with_eq:
  "Output_with marshal conv =
     (if numWorker conv < 0 then None
      else Some (fst (marshal (Output_mapping conv
                   (foldl receive_converted [] (status_records conv (retained (rawHeader conv))))
                   (failed_lines conv (retained (rawHeader conv))))), None))"
  by (simp add: Output_with_def convert_eq Let_def split: prod.split)

section \<open>The scenario of the specification\<close>

text \<open>
  C1. For the input that consists of the three lines \<open>HTTP/1.1 200 OK\<close>,
  \<open>Content-Type: text/html\<close> and \<open>X-Cache: HIT\<close>, each ended by a line feed, \<open>Output\<close> of the
  converter that \<open>NewHttpHeaderConverter\<close> makes returns the JSON object with the
  entries \<open>code\<close>, \<open>contentType\<close> and \<open>xCache\<close>, and a \<open>nil\<close> error, whatever the number of
  CPUs is.
\<close>

theorem Output_example:
  assumes "0 \<le> n"
  shows \<open>Output (NewHttpHeaderConverter
            ''HTTP/1.1 200 OK\<newline>Content-Type: text/html\<newline>X-Cache: HIT\<newline>'' n)
         = Some (''{"code":"200","contentType":"text/html","xCache":"HIT"}'', None)\<close>
proof -
  let ?input = "''HTTP/1.1 200 OK\<newline>Content-Type: text/html\<newline>X-Cache: HIT\<newline>''"
  have "Output (NewHttpHeaderConverter ?input n) = Output (NewHttpHeaderConverter ?input 0)"
    unfolding Output_def using assms
    by (intro Output_with_depends)
       (simp_all add: NewHttpHeaderConverter_def SetNumWorker_def SetOutputFormat_def SetRawHeader_def)
  also have \<open>\<dots> = Some (''{"code":"200","contentType":"text/html","xCache":"HIT"}'', None)\<close>
    by code_simp
  finally show ?thesis .
qed

theorem Output_example_witness:
  \<open>(0::int) \<le> 4 \<and>
   Output (NewHttpHeaderConverter
            ''HTTP/1.1 200 OK\<newline>Content-Type: text/html\<newline>X-Cache: HIT\<newline>'' 4)
         = Some (''{"code":"200","contentType":"text/html","xCache":"HIT"}'', None)\<close>
  using Output_example [of 4] by simp

section \<open>Errors\<close>

text \<open>
  C10. For every input, \<open>Output\<close> returns a \<open>nil\<close> error: it returns whenever the worker
  count is not negative (as the count that \<open>NewHttpHeaderConverter\<close> sets never is), every
  result it returns has the error \<open>nil\<close>, \<open>convert\<close> returns the error \<open>nil\<close>, and so does
  \<open>createJsonKey\<close>. The branch of \<open>main\<close> that exits on an error is never taken.
\<close>

theorem Output_error_is_nil:
  "(0 \<le> numWorker conv \<longrightarrow> (\<exists>resp. Output conv = Some (resp, None)))
   \<and> (\<forall>resp e. Output conv = Some (resp, e) \<longrightarrow> e = None)
   \<and> (\<forall>converted notConverted e. convert conv = Some (converted, notConverted, e) \<longrightarrow> e = None)
   \<and> snd (createJsonKey conv key) = None"
proof (intro conjI)
  show "0 \<le> numWorker conv \<longrightarrow> (\<exists>resp. Output conv = Some (resp, None))"
    by (simp add: Output_def Output_with_eq)
  show "\<forall>resp e. Output conv = Some (resp, e) \<longrightarrow> e = None"
    by (auto simp: Output_def Output_with_eq split: if_splits)
  show "\<forall>converted notConverted e. convert conv = Some (converted, notConverted, e) \<longrightarrow> e = None"
    by (auto simp: convert_eq split: if_splits)
  show "snd (createJsonKey conv key) = None"
    by (simp add: createJsonKey_def Let_def)
qed

theorem Output_error_is_nil_witness:
  "0 \<le> numWorker (NewHttpHeaderConverter ''not a header'' 8)
   \<and> (\<exists>resp. Output (NewHttpHeaderConverter ''not a header'' 8) = Some (resp, None))"
  using Output_error_is_nil [of "NewHttpHeaderConverter ''not a header'' 8"]
  by (simp add: NewHttpHeaderConverter_def SetNumWorker_def)




section \<open>Lines that are not classified\<close>

lemma complete_lines_unterminated:
  "CHR 0x0A \<notin> set t \<Longrightarrow> complete_lines (rd @ t) = complete_lines rd"
  by (induction rd) (simp_all add: complete_lines_none)


lemma retained_unterminated:
  "CHR 0x0A \<notin> set t \<Longrightarrow> retained (rd @ t) = retained rd"
  by (simp add: retained_def complete_lines_unterminated)




lemma pair_of_format: "outputFormat c = outputFormat c' \<Longrightarrow> pair_of c = pair_of c'"
  by (rule ext) (simp add: pair_of_def parsePair_format [of c c'])

lemma status_records_format:
  "outputFormat c = outputFormat c' \<Longrightarrow> status_records c = status_records c'"
  by (rule ext)
     (simp add: status_records_def pair_records_def pair_of_format [of c c']
        parseStatus_format [of c c'] split: list.split sum.split)

lemma failed_lines_format:
  "outputFormat c = outputFormat c' \<Longrightarrow> failed_lines c = failed_lines c'"
  by (rule ext)
     (simp add: failed_lines_def pair_failures_def pair_of_format [of c c']
        parseStatus_format [of c c'] split: list.split sum.split)

lemma Output_mapping_format:
  "outputFormat c = outputFormat c' \<Longrightarrow> Output_mapping c = Output_mapping c'"
  by (intro ext) (simp add: Output_mapping_def)

lemma convert_depends:
  assumes "outputFormat c = outputFormat c'"
    and "retained (rawHeader c) = retained (rawHeader c')"
    and "(numWorker c < 0) = (numWorker c' < 0)"
  shows "convert c = convert c'"
  using assms(2,3)
  by (simp add: convert_eq status_records_format [OF assms(1)] failed_lines_format [OF assms(1)])

lemma Output_depends:
  assumes "outputFormat c = outputFormat c'"
    and "retained (rawHeader c) = retained (rawHeader c')"
    and "(numWorker c < 0) = (numWorker c' < 0)"
  shows "Output_with m c = Output_with m c'"
  using assms(2,3)
  by (simp add: Output_with_eq status_records_format [OF assms(1)] failed_lines_format [OF assms(1)]
      Output_mapping_format [OF assms(1)])



text \<open>
  C9. A last line that no line feed ends is discarded: \<open>ReadString\<close> returns it with an
  error, at which the loop stops before it classifies the line. The streams, the mapping,
  the raw lines and the result of \<open>Output\<close> are those of the input without these bytes
  \<open>t\<close>.
\<close>

theorem unterminated_line_is_dropped:
  assumes "CHR 0x0A \<notin> set t"
  shows "createSenders conv (rd @ t) = createSenders conv rd
     \<and> convert (conv\<lparr>rawHeader := rd @ t\<rparr>) = convert (conv\<lparr>rawHeader := rd\<rparr>)
     \<and> Output (conv\<lparr>rawHeader := rd @ t\<rparr>) = Output (conv\<lparr>rawHeader := rd\<rparr>)"
  unfolding Output_def
  by (intro conjI convert_depends Output_depends)
     (simp_all add: retained_unterminated [OF assms] createSenders_eq)

theorem unterminated_line_is_dropped_witness:
  "CHR 0x0A \<notin> set ''Server: nginx''
   \<and> Output (NewHttpHeaderConverter [] 2\<lparr>rawHeader := ''X-Cache: HIT\<newline>'' @ ''Server: nginx''\<rparr>)
      = Output (NewHttpHeaderConverter [] 2\<lparr>rawHeader := ''X-Cache: HIT\<newline>''\<rparr>)"
proof -
  have 1: "CHR 0x0A \<notin> set ''Server: nginx''" by simp
  from unterminated_line_is_dropped [OF 1, of "NewHttpHeaderConverter [] 2" "''X-Cache: HIT\<newline>''"] 1
  show ?thesis by blast
qed

section \<open>The aggregated mapping\<close>








section \<open>The key normalizer on single words\<close>

lemma byte_of_inj: "byte_of c = byte_of d \<Longrightarrow> c = d"
  by (simp add: byte_of_def)















lemma strings_Split_nonempty: "strings_Split s d \<noteq> []"
  by (induction s) simp_all

lemma hd_strings_Split: "hd (strings_Split s d) = takeWhile (\<lambda>c. c \<noteq> d) s"
  by (induction s) simp_all

lemma concat_strings_Split: "concat (strings_Split s d) = filter (\<lambda>c. c \<noteq> d) s"
proof (induction s)
  case Nil
  show ?case by simp
next
  case (Cons c s)
  have "concat (strings_Split s d) = hd (strings_Split s d) @ concat (tl (strings_Split s d))"
    using strings_Split_nonempty [of s d] by (cases "strings_Split s d") simp_all
  with Cons show ?case by simp
qed

lemma concat_tl_strings_Split:
  "concat (tl (strings_Split s d)) = filter (\<lambda>c. c \<noteq> d) (dropWhile (\<lambda>c. c \<noteq> d) s)"
  by (induction s) (simp_all add: concat_strings_Split)

lemma createJsonKey_eq:
  "createJsonKey conv key =
     (strings_ToLower (takeWhile (\<lambda>c. c \<noteq> CHR '' '') (cases_Title (keyReplacer_Replace key)))
        @ filter (\<lambda>c. c \<noteq> CHR '' '')
            (dropWhile (\<lambda>c. c \<noteq> CHR '' '') (cases_Title (keyReplacer_Replace key))), None)"
proof -
  have "concat (xs[0 := f (xs ! 0)]) = f (hd xs) @ concat (tl xs)" if "xs \<noteq> []"
    for xs :: "string list" and f
    using that by (cases xs) simp_all
  from this [OF strings_Split_nonempty] show ?thesis
    by (simp add: createJsonKey_def Let_def strings_Join_empty_def hd_strings_Split
        concat_tl_strings_Split)
qed











section \<open>What the two patterns match\<close>










lemma pair_indices: "pairKeyIndex = 1" "pairValueIndex = 2"
  by (simp_all add: pairKeyIndex_def pairValueIndex_def pairPattern_def)



section \<open>The retained lines\<close>










section \<open>Pair classification\<close>








section \<open>Status classification\<close>













section \<open>The keys of the final mapping\<close>

lemma keys_receive_converted:
  "fst ` set (receive_converted m s) = insert (s ! 0) (fst ` set m)"
proof -
  have "set (map fst (AList.update (s ! 0) (JStr (s ! 1)) m)) = insert (s ! 0) (set (map fst m))"
    unfolding update_keys by auto
  thus ?thesis by (simp add: receive_converted_def)
qed

lemma keys_foldl_receive:
  "fst ` set (foldl receive_converted m cs) = fst ` set m \<union> (\<lambda>s. s ! 0) ` set cs"
proof (induction cs arbitrary: m)
  case Nil
  show ?case by simp
next
  case (Cons s cs)
  show ?case unfolding foldl_Cons Cons.IH keys_receive_converted by auto
qed

lemma values_foldl_receive:
  "map_of (foldl receive_converted m cs) k = Some v \<Longrightarrow>
   (\<exists>s. v = JStr s) \<or> map_of m k = Some v"
proof (induction cs arbitrary: m)
  case Nil
  then show ?case by simp
next
  case (Cons s cs)
  from Cons.IH [of "receive_converted m s"] Cons.prems
  have "(\<exists>s. v = JStr s) \<or> map_of (receive_converted m s) k = Some v" by simp
  thus ?case by (auto simp: receive_converted_def update_conv split: if_splits)
qed

lemma set_pair_records:
  assumes "s \<in> set (pair_records conv ls)"
  shows "\<exists>l\<in>set ls. parsePair conv l = Some (Inr s)"
proof -
  from assms obtain l where l: "l \<in> set ls" "pair_of conv l = Some s"
    by (auto simp: pair_records_def map_filter_def)
  hence "parsePair conv l = Some (Inr s)"
    by (auto simp: pair_of_def split: option.splits sum.splits)
  with l show ?thesis by blast
qed

lemma set_status_records:
  assumes "s \<in> set (status_records conv ls)"
  shows "(\<exists>l\<in>set ls. parseStatus conv l = Inr s) \<or> (\<exists>l\<in>set ls. parsePair conv l = Some (Inr s))"
proof (cases ls)
  case Nil
  with assms show ?thesis by (simp add: status_records_def)
next
  case (Cons l ls')
  show ?thesis
  proof (cases "parseStatus conv l")
    case (Inl e)
    with assms Cons have "s \<in> set (pair_records conv ls)" by (simp add: status_records_def)
    from set_pair_records [OF this] show ?thesis by blast
  next
    case (Inr kv)
    with assms Cons have "s = kv \<or> s \<in> set (pair_records conv ls')"
      by (simp add: status_records_def)
    thus ?thesis
    proof
      assume "s = kv"
      with Inr Cons show ?thesis by auto
    next
      assume "s \<in> set (pair_records conv ls')"
      from set_pair_records [OF this] Cons show ?thesis by auto
    qed
  qed
qed

lemma parseStatus_key:
  "parseStatus conv l = Inr s \<Longrightarrow> s ! 0 = (if outputFormat conv = JsonFormat then ''code'' else ''Code'')"
  by (auto simp: parseStatus_def Let_def split: if_splits)

lemma parsePair_key:
  assumes "parsePair conv l = Some (Inr s)" "outputFormat conv = JsonFormat"
  shows "length (FindStringSubmatch pairPattern l) = 3
   \<and> s ! 0 = fst (createJsonKey conv (FindStringSubmatch pairPattern l ! 1))"
proof -
  have c: "createJsonKey conv k = (fst (createJsonKey conv k), None)" for k
    by (simp add: createJsonKey_eq)
  show ?thesis
    using assms unfolding parsePair_def Let_def pair_indices
    by (subst (asm) c) (auto split: if_splits)
qed

lemma keys_update: "fst ` set (AList.update k v al) = insert k (fst ` set al)"
proof -
  have "set (map fst (AList.update k v al)) = insert k (set (map fst al))"
    unfolding update_keys by auto
  thus ?thesis by simp
qed

lemma entries_foldl_receive:
  "map_of (foldl receive_converted m cs) k = Some v \<Longrightarrow>
   (\<exists>s\<in>set cs. s ! 0 = k \<and> v = JStr (s ! 1)) \<or> map_of m k = Some v"
proof (induction cs arbitrary: m)
  case Nil
  then show ?case by simp
next
  case (Cons s cs)
  from Cons.IH [of "receive_converted m s"] Cons.prems
  have "(\<exists>s\<in>set cs. s ! 0 = k \<and> v = JStr (s ! 1)) \<or> map_of (receive_converted m s) k = Some v"
    by simp
  thus ?case by (auto simp: receive_converted_def update_conv split: if_splits)
qed

lemma parsePair_shape: "parsePair conv l = Some (Inr s) \<Longrightarrow> \<exists>k v. s = [k, v]"
  by (auto simp: parsePair_def Let_def createJsonKey_eq split: if_splits)

lemma parseStatus_shape: "parseStatus conv l = Inr s \<Longrightarrow> \<exists>k v. s = [k, v]"
  by (auto simp: parseStatus_def Let_def split: if_splits)

text \<open>
  C5 as the specification states it, that the key \<open>raw\<close> is in the final mapping only if a
  retained line failed classification, does not hold: the header line \<open>Raw: abcd\<close> is
  classified as a pair, its normalized key is \<open>raw\<close>, and the mapping that \<open>Output\<close>
  serializes has the key \<open>raw\<close> with the string \<open>abcd\<close>, though no line failed.
\<close>

theorem raw_key_counterexample:
  \<open>convert (NewHttpHeaderConverter ''Raw: abcd\<newline>'' 1) = Some ([(''raw'', JStr ''abcd'')], [], None)
   \<and> failed_lines (NewHttpHeaderConverter ''Raw: abcd\<newline>'' 1) (retained ''Raw: abcd\<newline>'') = []
   \<and> Output_mapping (NewHttpHeaderConverter ''Raw: abcd\<newline>'' 1) [(''raw'', JStr ''abcd'')] []
       = [(''raw'', JStr ''abcd'')]
   \<and> Output (NewHttpHeaderConverter ''Raw: abcd\<newline>'' 1) = Some (''{"raw":"abcd"}'', None)\<close>
  by code_simp

text \<open>
  C5, amended. In the mapping that \<open>Output\<close> serializes, the key \<open>raw\<close> holds the array of
  the retained lines that failed classification, in the order of the input, if and only
  if at least one retained line failed. When none failed the mapping is the one of the
  classified records, and it has the key \<open>raw\<close> only for a header line whose normalized key
  is \<open>raw\<close>, with the value of that line, a string. Every key of the mapping is \<open>code\<close>,
  \<open>raw\<close> or the normalized key of a retained line that the pair pattern matches. Here the
  format is \<open>JsonFormat\<close>.
\<close>

theorem raw_key_and_keys:
  assumes "0 \<le> numWorker conv" and "outputFormat conv = JsonFormat"
  shows "\<exists>converted notConverted.
      convert conv = Some (converted, notConverted, None)
    \<and> Output conv = Some (fst (json_Marshal (Output_mapping conv converted notConverted)), None)
    \<and> notConverted = failed_lines conv (retained (rawHeader conv))
    \<and> ((map_of (Output_mapping conv converted notConverted) ''raw'' = Some (JArr notConverted))
         = (notConverted \<noteq> []))
    \<and> (notConverted = [] \<longrightarrow>
         Output_mapping conv converted notConverted = converted
         \<and> (\<forall>v. map_of converted ''raw'' = Some v \<longrightarrow>
               (\<exists>x l. v = JStr x \<and> l \<in> set (retained (rawHeader conv))
                  \<and> parsePair conv l = Some (Inr [''raw'', x]))))
    \<and> (\<forall>k\<in>fst ` set (Output_mapping conv converted notConverted).
          k = ''code'' \<or> k = ''raw''
          \<or> (\<exists>l\<in>set (retained (rawHeader conv)).
                length (FindStringSubmatch pairPattern l) = 3
                \<and> k = fst (createJsonKey conv (FindStringSubmatch pairPattern l ! 1))))"
proof -
  let ?ls = "retained (rawHeader conv)"
  let ?cs = "status_records conv ?ls"
  let ?m = "foldl receive_converted [] ?cs"
  let ?ns = "failed_lines conv ?ls"
  let ?M = "Output_mapping conv ?m ?ns"
  have c: "convert conv = Some (?m, ?ns, None)" using assms(1) by (simp add: convert_eq)
  have o: "Output conv = Some (fst (json_Marshal ?M), None)"
    using assms(1) by (simp add: Output_def Output_with_eq)
  have strs: "\<exists>s. v = JStr s" if "map_of ?m k = Some v" for k v
    using values_foldl_receive [OF that] by simp
  have raw: "(map_of ?M ''raw'' = Some (JArr ?ns)) = (?ns \<noteq> [])"
  proof (cases "?ns = []")
    case True
    hence "?M = ?m" by (simp add: Output_mapping_def)
    with True strs [of "''raw''"] show ?thesis by auto
  next
    case False
    hence "?M = AList.update ''raw'' (JArr ?ns) ?m"
      using assms(2) by (simp add: Output_mapping_def)
    with False show ?thesis by (simp add: update_conv)
  qed
  have keys: "k = ''code'' \<or> k = ''raw''
          \<or> (\<exists>l\<in>set ?ls. length (FindStringSubmatch pairPattern l) = 3
                \<and> k = fst (createJsonKey conv (FindStringSubmatch pairPattern l ! 1)))"
    if "k \<in> fst ` set ?M" for k
  proof -
    have "fst ` set ?M \<subseteq> insert ''raw'' (fst ` set ?m)"
      using assms(2) by (simp add: Output_mapping_def Let_def keys_update subset_insertI)
    with that have "k = ''raw'' \<or> k \<in> fst ` set ?m" by auto
    thus ?thesis
    proof
      assume "k = ''raw''"
      thus ?thesis by simp
    next
      assume "k \<in> fst ` set ?m"
      then obtain s where s: "s \<in> set ?cs" "k = s ! 0" by (auto simp: keys_foldl_receive)
      from set_status_records [OF s(1)] show ?thesis
      proof
        assume "\<exists>l\<in>set ?ls. parseStatus conv l = Inr s"
        thus ?thesis using parseStatus_key [of conv _ s] s(2) assms(2) by auto
      next
        assume "\<exists>l\<in>set ?ls. parsePair conv l = Some (Inr s)"
        thus ?thesis using parsePair_key [of conv _ s] s(2) assms(2) by blast
      qed
    qed
  qed
  have hdr: "\<exists>x l. v = JStr x \<and> l \<in> set ?ls \<and> parsePair conv l = Some (Inr [''raw'', x])"
    if "map_of ?m ''raw'' = Some v" for v
  proof -
    from entries_foldl_receive [OF that] obtain s
      where s: "s \<in> set ?cs" "s ! 0 = ''raw''" "v = JStr (s ! 1)" by auto
    from set_status_records [OF s(1)] show ?thesis
    proof
      assume "\<exists>l\<in>set ?ls. parseStatus conv l = Inr s"
      hence False using parseStatus_key [of conv _ s] s(2) assms(2) by auto
      thus ?thesis ..
    next
      assume "\<exists>l\<in>set ?ls. parsePair conv l = Some (Inr s)"
      then obtain l where l: "l \<in> set ?ls" "parsePair conv l = Some (Inr s)" by blast
      from parsePair_shape [OF l(2)] s(2) obtain x where "s = [''raw'', x]" by auto
      with l s(3) show ?thesis by auto
    qed
  qed
  have empty: "?ns = [] \<longrightarrow> ?M = ?m" by (simp add: Output_mapping_def)
  show ?thesis
    using c o raw hdr empty keys by (intro exI [of _ ?m] exI [of _ ?ns]) blast
qed

theorem raw_key_and_keys_witness:
  "0 \<le> numWorker (NewHttpHeaderConverter ''X-Cache: HIT\<newline>junk line\<newline>'' 2)
   \<and> outputFormat (NewHttpHeaderConverter ''X-Cache: HIT\<newline>junk line\<newline>'' 2) = JsonFormat
   \<and> (\<exists>converted notConverted.
         convert (NewHttpHeaderConverter ''X-Cache: HIT\<newline>junk line\<newline>'' 2)
           = Some (converted, notConverted, None)
         \<and> ((map_of (Output_mapping (NewHttpHeaderConverter ''X-Cache: HIT\<newline>junk line\<newline>'' 2)
                   converted notConverted) ''raw''
               = Some (JArr notConverted)) = (notConverted \<noteq> [])))"
proof -
  let ?c = "NewHttpHeaderConverter ''X-Cache: HIT\<newline>junk line\<newline>'' 2"
  have 1: "0 \<le> numWorker ?c"
    by (simp add: NewHttpHeaderConverter_def SetNumWorker_def)
  have 2: "outputFormat ?c = JsonFormat"
    by (simp add: NewHttpHeaderConverter_def SetNumWorker_def SetOutputFormat_def)
  from raw_key_and_keys [OF 1 2] obtain converted notConverted
    where c: "convert ?c = Some (converted, notConverted, None)"
      and r: "(map_of (Output_mapping ?c converted notConverted) ''raw'' = Some (JArr notConverted))
                = (notConverted \<noteq> [])"
    by (elim exE conjE)
  have "\<exists>converted notConverted. convert ?c = Some (converted, notConverted, None)
         \<and> ((map_of (Output_mapping ?c converted notConverted) ''raw'' = Some (JArr notConverted))
               = (notConverted \<noteq> []))"
    using c r by (intro exI conjI)
  with 1 2 show ?thesis by (intro conjI)
qed

end
